theory Spec2Isabelle
  imports Main
begin

section \<open>Data model (shared/schema.ts)\<close>

text \<open>
  The tables of \<^verbatim>\<open>shared/schema.ts\<close> are lists of rows in insertion order. Only the
  columns that the storage layer reads or writes in the operations below are kept; the
  generated \<^verbatim>\<open>id\<close> and \<^verbatim>\<open>createdAt\<close> columns of the progress and profile tables and
  the descriptive columns of quests and groups play no part in them.
  Integer columns are unbounded integers (the range of the PostgreSQL \<^verbatim>\<open>integer\<close> type is
  not modelled), a nullable column is an \<open>option\<close>, a timestamp is a clock reading in
  milliseconds, and the \<^verbatim>\<open>jsonb\<close> attribute object is a finite map from key to number.
\<close>

type_synonym timestamp = nat

record QuestGroup =
  group_id :: string

record Quest =
  quest_id :: string
  groupId :: "string option"
  xpReward :: "int option"
  attributePointReward :: "int option"
  targetAttribute :: "string option"

record QuestProgress =
  questId :: string
  progress :: int
  completed :: bool
  completedAt :: "timestamp option"
  isArchived :: bool
  archivedAt :: "timestamp option"
  archiveReason :: "string option"
  canUndo :: bool

record Profile =
  level :: int
  xp :: int
  cumulativeXp :: int
  availablePoints :: int
  attributes :: "string \<Rightarrow> int option"

text \<open>The database: the three quest tables and the profile table, which holds at most one row.\<close>

record db =
  questGroups :: "QuestGroup list"
  quests :: "Quest list"
  questProgress :: "QuestProgress list"
  profile :: "Profile option"

text \<open>
  The errors thrown by the storage layer, named after their messages, and the two errors of
  the database that its statements run into: the rejection of a \<^verbatim>\<open>DELETE\<close> by the foreign
  key \<^verbatim>\<open>quest_progress.quest_id \<rightarrow> quests.id\<close>, and the rejection of a text that is not
  JSON as input of the type \<^verbatim>\<open>jsonb\<close>.
\<close>

datatype error =
    QuestNotFound
  | QuestNotCompleted
  | QuestProgressNotFound
  | QuestNotArchived
  | InvalidTargetAttribute string
  | ForeignKeyViolation
  | InvalidJsonbInput

section \<open>Storage primitives\<close>

text \<open>\<^verbatim>\<open>db.transaction\<close>: an exception in the body rolls every write of the body back.\<close>

definition transaction :: "(db \<Rightarrow> error + db \<times> 'a) \<Rightarrow> db \<Rightarrow> db \<times> (error + 'a)" where
  "transaction body s = (case body s of Inl e \<Rightarrow> (s, Inl e) | Inr (s', r) \<Rightarrow> (s', Inr r))"

text \<open>\<^verbatim>\<open>const [row] = await db.select()...where(...)\<close>: the first matching row, or undefined.\<close>

definition getQuest :: "db \<Rightarrow> string \<Rightarrow> Quest option" where
  "getQuest s qid = find (\<lambda>q. quest_id q = qid) (quests s)"

definition getQuestProgress :: "db \<Rightarrow> string \<Rightarrow> QuestProgress option" where
  "getQuestProgress s qid = find (\<lambda>r. questId r = qid) (questProgress s)"

text \<open>
  \<^verbatim>\<open>update(questProgress).set(...).where(eq(questProgress.questId, qid)).returning()\<close>:
  the table after the update, and the updated rows.
\<close>

definition update_returning ::
  "string \<Rightarrow> (QuestProgress \<Rightarrow> QuestProgress) \<Rightarrow> QuestProgress list
     \<Rightarrow> QuestProgress list \<times> QuestProgress list" where
  "update_returning qid f rows =
     (map (\<lambda>r. if questId r = qid then f r else r) rows,
      map f (filter (\<lambda>r. questId r = qid) rows))"

text \<open>\<^verbatim>\<open>const [x] = rows\<close>: the first element, undefined (\<open>None\<close>) on the empty array.\<close>

fun first_row :: "'a list \<Rightarrow> 'a option" where
  "first_row [] = None"
| "first_row (r # _) = Some r"

text \<open>JavaScript's \<^verbatim>\<open>v || 0\<close> on a nullable number.\<close>

definition or0 :: "int option \<Rightarrow> int" where
  "or0 v = (case v of None \<Rightarrow> 0 | Some n \<Rightarrow> n)"

text \<open>
  \<^verbatim>\<open>quest.attributePointReward && quest.attributePointReward > 0\<close> and the truthiness of
  \<^verbatim>\<open>quest.targetAttribute\<close> (null and the empty string are falsy): \<open>truthyTarget\<close> is
  the target attribute when it is truthy.
\<close>

definition awardsPoints :: "Quest \<Rightarrow> bool" where
  "awardsPoints quest = (case attributePointReward quest of None \<Rightarrow> False | Some r \<Rightarrow> r > 0)"

definition truthyTarget :: "Quest \<Rightarrow> string option" where
  "truthyTarget quest =
     (case targetAttribute quest of None \<Rightarrow> None | Some t \<Rightarrow> if t = [] then None else Some t)"

definition allowedAttributes :: "string list" where
  "allowedAttributes = [''physique'', ''mental'', ''success'', ''social'', ''skills'']"

section \<open>Profile\<close>

definition defaultAttributes :: "string \<Rightarrow> int option" where
  "defaultAttributes =
     [''physique'' \<mapsto> 10, ''mental'' \<mapsto> 10, ''success'' \<mapsto> 10, ''social'' \<mapsto> 10, ''skills'' \<mapsto> 10]"

text \<open>The row that \<^verbatim>\<open>getProfile\<close> inserts (\<^verbatim>\<open>cumulative_xp\<close> takes its column default 0).\<close>

definition defaultProfile :: Profile where
  "defaultProfile =
     \<lparr>level = 1, xp = 0, cumulativeXp = 0, availablePoints = 0, attributes = defaultAttributes\<rparr>"

definition getProfile :: "db \<Rightarrow> db \<times> Profile" where
  "getProfile s =
     (case profile s of
        None \<Rightarrow> (s\<lparr>profile := Some defaultProfile\<rparr>, defaultProfile)
      | Some p \<Rightarrow> (s, p))"

section \<open>Quest catalogue (deleteQuest, deleteQuestGroup)\<close>

text \<open>
  The result of a \<^verbatim>\<open>DELETE\<close>. The database of \<^verbatim>\<open>server/db.ts\<close> is built on the
  \<^verbatim>\<open>postgres-js\<close> driver, whose result reports the number of deleted rows as
  \<^verbatim>\<open>count\<close>; the property \<^verbatim>\<open>rowCount\<close> that the storage layer reads is absent,
  whatever the number of deleted rows. \<open>deleted\<close> is
  \<^verbatim>\<open>result.rowCount ? result.rowCount > 0 : false\<close> on an optional number.
\<close>

definition rowCount :: "nat \<Rightarrow> nat option" where
  "rowCount deletedRows = None"

definition deleted :: "nat option \<Rightarrow> bool" where
  "deleted rc = (case rc of None \<Rightarrow> False | Some n \<Rightarrow> if n = 0 then False else n > 0)"

text \<open>
  \<^verbatim>\<open>deleteQuest\<close> first deletes the progress rows of the quest, then the quest.
\<close>

definition deleteQuest :: "string \<Rightarrow> db \<Rightarrow> db \<times> (error + bool)" where
  "deleteQuest qid s =
     (let s1 = s\<lparr>questProgress := filter (\<lambda>r. questId r \<noteq> qid) (questProgress s)\<rparr>;
          result = rowCount (length (filter (\<lambda>q. quest_id q = qid) (quests s1)))
      in (s1\<lparr>quests := filter (\<lambda>q. quest_id q \<noteq> qid) (quests s1)\<rparr>, Inr (deleted result)))"

text \<open>
  \<^verbatim>\<open>deleteQuestGroup\<close> deletes the quests of the group, then the group. The first statement
  deletes no progress row, so the foreign key of \<^verbatim>\<open>quest_progress\<close> rejects it when one of
  the quests has a progress row; the exception leaves the database as it was.
\<close>

definition deleteQuestGroup :: "string \<Rightarrow> db \<Rightarrow> db \<times> (error + bool)" where
  "deleteQuestGroup gid s =
     (if \<exists>q \<in> set (quests s). groupId q = Some gid \<and>
           (\<exists>r \<in> set (questProgress s). questId r = quest_id q)
      then (s, Inl ForeignKeyViolation)
      else
        (let s1 = s\<lparr>quests := filter (\<lambda>q. groupId q \<noteq> Some gid) (quests s)\<rparr>;
             result = rowCount (length (filter (\<lambda>g. group_id g = gid) (questGroups s1)))
         in (s1\<lparr>questGroups := filter (\<lambda>g. group_id g \<noteq> gid) (questGroups s1)\<rparr>,
             Inr (deleted result))))"

section \<open>Completion engine\<close>

subsection \<open>completeQuest\<close>

text \<open>
  The upsert \<^verbatim>\<open>INSERT ... ON CONFLICT (quest_id) DO UPDATE ... RETURNING\<close>: without a row for
  the quest a completed row is inserted (the archive columns take their defaults); a row
  that is not completed is completed, its counter incremented; a completed row is kept.
\<close>

definition insertValues :: "timestamp \<Rightarrow> string \<Rightarrow> QuestProgress" where
  "insertValues now qid =
     \<lparr>questId = qid, progress = 1, completed = True, completedAt = Some now,
      isArchived = False, archivedAt = None, archiveReason = None, canUndo = True\<rparr>"

definition onConflict :: "timestamp \<Rightarrow> QuestProgress \<Rightarrow> QuestProgress" where
  "onConflict now r =
     (if \<not> completed r
      then r\<lparr>progress := progress r + 1, completed := True, completedAt := Some now\<rparr>
      else r)"

definition upsertCompleted ::
  "timestamp \<Rightarrow> string \<Rightarrow> QuestProgress list \<Rightarrow> QuestProgress list \<times> QuestProgress" where
  "upsertCompleted now qid rows =
     (case update_returning qid (onConflict now) rows of
        (rows', r # _) \<Rightarrow> (rows', r)
      | (_, []) \<Rightarrow> (rows @ [insertValues now qid], insertValues now qid))"

text \<open>
  The profile update of \<^verbatim>\<open>completeQuest\<close>, on the profile row read in the transaction. The
  \<^verbatim>\<open>updates\<close> object is built field by field as in the source: XP, level and cumulative XP
  first, then the attribute points (to the whitelisted target attribute, capped at 100, or to
  the available points), then one available point per level gained.
\<close>

definition completeProfile :: "Quest \<Rightarrow> Profile \<Rightarrow> error + Profile" where
  "completeProfile quest p =
     (let currentXP = xp p;
          newXP = currentXP + or0 (xpReward quest);
          currentLevel = currentXP div 800 + 1;
          newLevel = newXP div 800 + 1;
          levelIncrease = newLevel - currentLevel;
          newCumulativeXP = cumulativeXp p + or0 (xpReward quest);
          updates = p\<lparr>xp := xp p + or0 (xpReward quest), level := newLevel,
                      cumulativeXp := newCumulativeXP\<rparr>;
          awarded =
            (if awardsPoints quest then
               (case truthyTarget quest of
                  Some t \<Rightarrow>
                    if t \<notin> set allowedAttributes then Inl (InvalidTargetAttribute t)
                    else
                      (let attributeValue = or0 (attributes p t);
                           newAttributeValue =
                             min 100 (attributeValue + or0 (attributePointReward quest))
                       in Inr (updates\<lparr>attributes := (attributes p)(t \<mapsto> newAttributeValue)\<rparr>))
                | None \<Rightarrow>
                    Inr (updates\<lparr>availablePoints :=
                                   availablePoints p + or0 (attributePointReward quest)\<rparr>))
             else Inr updates)
      in case awarded of
           Inl e \<Rightarrow> Inl e
         | Inr updates' \<Rightarrow>
             Inr (if levelIncrease > 0
                  then updates'\<lparr>availablePoints := availablePoints updates' + levelIncrease\<rparr>
                  else updates'))"

text \<open>
  \<^verbatim>\<open>completeQuest\<close>, at the clock reading \<open>now\<close> of its \<^verbatim>\<open>new Date()\<close>. The profile is
  credited when the returned row is completed and its \<^verbatim>\<open>completedAt\<close> equals \<open>now\<close>
  (\<^verbatim>\<open>wasJustCompleted\<close>), and a profile row exists.
\<close>

definition completeQuest :: "timestamp \<Rightarrow> string \<Rightarrow> db \<Rightarrow> db \<times> (error + QuestProgress)" where
  "completeQuest now qid s =
     (case getQuest s qid of
        None \<Rightarrow> (s, Inl QuestNotFound)
      | Some quest \<Rightarrow>
          transaction (\<lambda>tx.
            (case upsertCompleted now qid (questProgress tx) of
               (rows', progressResult) \<Rightarrow>
                 (let tx1 = tx\<lparr>questProgress := rows'\<rparr>;
                      wasJustCompleted = (completedAt progressResult = Some now)
                  in if completed progressResult \<and> wasJustCompleted then
                       (case profile tx1 of
                          None \<Rightarrow> Inr (tx1, progressResult)
                        | Some p \<Rightarrow>
                            (case completeProfile quest p of
                               Inl e \<Rightarrow> Inl e
                             | Inr p' \<Rightarrow> Inr (tx1\<lparr>profile := Some p'\<rparr>, progressResult)))
                     else Inr (tx1, progressResult)))) s)"

subsection \<open>cancelQuestCompletion\<close>

text \<open>
  The profile update of \<^verbatim>\<open>cancelQuestCompletion\<close>. For a quest that awards points to a
  target attribute (no whitelist here) the \<^verbatim>\<open>updates\<close> object takes the raw fragment
  \<^verbatim>\<open>jsonb_set(attributes, '{<target>}', '<value>'::jsonb)\<close>, whose two interpolations are
  bound as statement parameters: the quoted texts hold the placeholders, not the values, the
  text cast to \<^verbatim>\<open>jsonb\<close> is not JSON, and the database rejects the \<^verbatim>\<open>UPDATE\<close>. For the
  other quests \<^verbatim>\<open>available_points - reward\<close> is not floored, and \<^verbatim>\<open>GREATEST(0, ...)\<close>
  floors the available points only when a level is lost.
\<close>

definition cancelProfile :: "Quest \<Rightarrow> Profile \<Rightarrow> error + Profile" where
  "cancelProfile quest p =
     (let currentXP = xp p;
          newXP = max 0 (currentXP - or0 (xpReward quest));
          currentLevel = currentXP div 800 + 1;
          newLevel = newXP div 800 + 1;
          levelDecrease = currentLevel - newLevel;
          updates = p\<lparr>xp := max 0 newXP, level := newLevel\<rparr>;
          rolledBack =
            (if awardsPoints quest then
               (case truthyTarget quest of
                  Some t \<Rightarrow> Inl InvalidJsonbInput
                | None \<Rightarrow>
                    Inr (updates\<lparr>availablePoints :=
                                   availablePoints p - or0 (attributePointReward quest)\<rparr>))
             else Inr updates)
      in case rolledBack of
           Inl e \<Rightarrow> Inl e
         | Inr updates' \<Rightarrow>
             Inr (if levelDecrease > 0
                  then updates'\<lparr>availablePoints :=
                                  max 0 (availablePoints updates' - levelDecrease)\<rparr>
                  else updates'))"

definition resetCompletion :: "QuestProgress \<Rightarrow> QuestProgress" where
  "resetCompletion r = r\<lparr>progress := 0, completed := False, completedAt := None\<rparr>"

definition cancelQuestCompletion :: "string \<Rightarrow> db \<Rightarrow> db \<times> (error + QuestProgress option)" where
  "cancelQuestCompletion qid s =
     (case getQuest s qid of
        None \<Rightarrow> (s, Inl QuestNotFound)
      | Some quest \<Rightarrow>
          (case getQuestProgress s qid of
             None \<Rightarrow> (s, Inl QuestNotCompleted)
           | Some existingProgress \<Rightarrow>
               if \<not> completed existingProgress then (s, Inl QuestNotCompleted)
               else
                 transaction (\<lambda>tx.
                   (case update_returning qid resetCompletion (questProgress tx) of
                      (rows', returned) \<Rightarrow>
                        (let tx1 = tx\<lparr>questProgress := rows'\<rparr>;
                             progressResult = first_row returned
                         in case profile tx1 of
                              None \<Rightarrow> Inr (tx1, progressResult)
                            | Some p \<Rightarrow>
                                (case cancelProfile quest p of
                                   Inl e \<Rightarrow> Inl e
                                 | Inr p' \<Rightarrow>
                                     Inr (tx1\<lparr>profile := Some p'\<rparr>, progressResult))))) s))"

subsection \<open>archiveQuest, restoreQuestFromArchive, deleteArchivedQuest\<close>

definition archiveQuest ::
  "timestamp \<Rightarrow> string \<Rightarrow> string \<Rightarrow> db \<Rightarrow> db \<times> (error + QuestProgress option)" where
  "archiveQuest now qid reason s =
     (case getQuestProgress s qid of
        None \<Rightarrow> (s, Inl QuestProgressNotFound)
      | Some existingProgress \<Rightarrow>
          (case update_returning qid
                  (\<lambda>r. r\<lparr>isArchived := True, archivedAt := Some now,
                          archiveReason := Some reason, canUndo := True\<rparr>)
                  (questProgress s) of
             (rows', returned) \<Rightarrow> (s\<lparr>questProgress := rows'\<rparr>, Inr (first_row returned))))"

definition restoreQuestFromArchive :: "string \<Rightarrow> db \<Rightarrow> db \<times> (error + QuestProgress option)" where
  "restoreQuestFromArchive qid s =
     (case update_returning qid
             (\<lambda>r. r\<lparr>isArchived := False, archivedAt := None, archiveReason := None,
                     canUndo := True\<rparr>)
             (questProgress s) of
        (rows', returned) \<Rightarrow>
          (case first_row returned of
             None \<Rightarrow> (s\<lparr>questProgress := rows'\<rparr>, Inl QuestProgressNotFound)
           | Some restoredProgress \<Rightarrow> (s\<lparr>questProgress := rows'\<rparr>, Inr (Some restoredProgress))))"

text \<open>
  \<^verbatim>\<open>if (!existingProgress?.isArchived) throw new Error('Quest not archived')\<close>: a missing
  row and a row that is not archived raise the same error.
\<close>

definition deleteArchivedQuest :: "string \<Rightarrow> db \<Rightarrow> db \<times> (error + bool)" where
  "deleteArchivedQuest qid s =
     (if \<not> (case getQuestProgress s qid of None \<Rightarrow> False | Some r \<Rightarrow> isArchived r)
      then (s, Inl QuestNotArchived)
      else
        (let result = rowCount (length (filter (\<lambda>r. questId r = qid) (questProgress s)))
         in (s\<lparr>questProgress := filter (\<lambda>r. questId r \<noteq> qid) (questProgress s)\<rparr>,
             Inr (deleted result))))"

subsection \<open>undoQuestCompletion\<close>

definition undoProfile :: "Quest \<Rightarrow> Profile \<Rightarrow> error + Profile" where
  "undoProfile quest p =
     (let currentCumulativeXP = cumulativeXp p;
          newCumulativeXP = max 0 (currentCumulativeXP - or0 (xpReward quest));
          updates = p\<lparr>cumulativeXp := newCumulativeXP\<rparr>
      in if awardsPoints quest then
           (case truthyTarget quest of
              Some t \<Rightarrow>
                if t \<notin> set allowedAttributes then Inl (InvalidTargetAttribute t)
                else
                  (let attributeValue = or0 (attributes p t);
                       newAttributeValue =
                         max 0 (attributeValue - or0 (attributePointReward quest))
                   in Inr (updates\<lparr>attributes := (attributes p)(t \<mapsto> newAttributeValue)\<rparr>))
            | None \<Rightarrow>
                (let currentAvailable = availablePoints p
                 in Inr (updates\<lparr>availablePoints :=
                                    max 0 (currentAvailable - or0 (attributePointReward quest))\<rparr>)))
         else Inr updates)"

definition resetAll :: "QuestProgress \<Rightarrow> QuestProgress" where
  "resetAll r = r\<lparr>progress := 0, completed := False, completedAt := None,
                  isArchived := False, archivedAt := None, archiveReason := None\<rparr>"

definition undoQuestCompletion :: "string \<Rightarrow> db \<Rightarrow> db \<times> (error + QuestProgress option)" where
  "undoQuestCompletion qid s =
     (case getQuest s qid of
        None \<Rightarrow> (s, Inl QuestNotFound)
      | Some quest \<Rightarrow>
          (case getQuestProgress s qid of
             None \<Rightarrow> (s, Inl QuestNotCompleted)
           | Some existingProgress \<Rightarrow>
               if \<not> completed existingProgress then (s, Inl QuestNotCompleted)
               else
                 transaction (\<lambda>tx.
                   (case update_returning qid resetAll (questProgress tx) of
                      (rows', returned) \<Rightarrow>
                        (let tx1 = tx\<lparr>questProgress := rows'\<rparr>;
                             progressResult = first_row returned
                         in case profile tx1 of
                              None \<Rightarrow> Inr (tx1, progressResult)
                            | Some p \<Rightarrow>
                                (case undoProfile quest p of
                                   Inl e \<Rightarrow> Inl e
                                 | Inr p' \<Rightarrow>
                                     Inr (tx1\<lparr>profile := Some p'\<rparr>, progressResult))))) s))"

subsection \<open>Sequences of engine operations\<close>

datatype operation =
    Complete timestamp string
  | Cancel string
  | Archive timestamp string string
  | RestoreFromArchive string
  | DeleteArchived string
  | Undo string

text \<open>The database after one call; a call that throws leaves the database it returns.\<close>

fun apply_op :: "operation \<Rightarrow> db \<Rightarrow> db" where
  "apply_op (Complete now qid) s = fst (completeQuest now qid s)"
| "apply_op (Cancel qid) s = fst (cancelQuestCompletion qid s)"
| "apply_op (Archive now qid reason) s = fst (archiveQuest now qid reason s)"
| "apply_op (RestoreFromArchive qid) s = fst (restoreQuestFromArchive qid s)"
| "apply_op (DeleteArchived qid) s = fst (deleteArchivedQuest qid s)"
| "apply_op (Undo qid) s = fst (undoQuestCompletion qid s)"

fun run :: "operation list \<Rightarrow> db \<Rightarrow> db" where
  "run [] s = s"
| "run (x # xs) s = run xs (apply_op x s)"

subsection \<open>Notions used to state the properties\<close>

text \<open>
  A quest is inactive when it has no progress row or its row is not completed.
\<close>

definition inactive :: "db \<Rightarrow> string \<Rightarrow> bool" where
  "inactive s qid = (case getQuestProgress s qid of None \<Rightarrow> True | Some r \<Rightarrow> \<not> completed r)"

text \<open>
  The routing of the attribute points of a quest: \<open>awardTarget\<close> is the attribute they go
  to, if any; \<open>freePoints\<close> is the amount that goes to the available points instead.
\<close>

definition awardTarget :: "Quest \<Rightarrow> string option" where
  "awardTarget quest = (if awardsPoints quest then truthyTarget quest else None)"

definition freePoints :: "Quest \<Rightarrow> int" where
  "freePoints quest =
     (if awardsPoints quest \<and> truthyTarget quest = None
      then or0 (attributePointReward quest) else 0)"

text \<open>
  The available points that the completed quests of the progress table hold: \<open>pointsOf\<close> is
  the amount a completed row's quest routes to the available points, \<open>pending\<close> their sum
  over the table, and \<open>questPoints\<close> the amount of the quest with a given id.
\<close>

definition pointsOf :: "Quest list \<Rightarrow> QuestProgress \<Rightarrow> int" where
  "pointsOf qs r =
     (if completed r
      then (case find (\<lambda>q. quest_id q = questId r) qs of None \<Rightarrow> 0 | Some q \<Rightarrow> freePoints q)
      else 0)"

definition pending :: "Quest list \<Rightarrow> QuestProgress list \<Rightarrow> int" where
  "pending qs rows = sum_list (map (pointsOf qs) rows)"

text \<open>
  The attribute object is in range when every value it holds lies in [0,100] and the five
  attributes of the whitelist are present.
\<close>

definition attributesInRange :: "(string \<Rightarrow> int option) \<Rightarrow> bool" where
  "attributesInRange m =
     (\<forall>k. case m k of None \<Rightarrow> k \<notin> set allowedAttributes | Some v \<Rightarrow> 0 \<le> v \<and> v \<le> 100)"

text \<open>
  The invariant of the ledger: quest ids are unique in the progress table, a profile row
  exists, XP and cumulative XP are not negative, the attributes are in range, and the
  available points cover one point per level gained plus the points held by completed quests.
\<close>

definition ledgerInv :: "db \<Rightarrow> bool" where
  "ledgerInv s =
     (distinct (map questId (questProgress s)) \<and>
      (case profile s of
         None \<Rightarrow> False
       | Some p \<Rightarrow>
           0 \<le> xp p \<and> 0 \<le> cumulativeXp p \<and> attributesInRange (attributes p) \<and>
           xp p div 800 + pending (quests s) (questProgress s) \<le> availablePoints p))"

definition questPoints :: "Quest list \<Rightarrow> string \<Rightarrow> int" where
  "questPoints qs qid = (case find (\<lambda>q. quest_id q = qid) qs of None \<Rightarrow> 0 | Some q \<Rightarrow> freePoints q)"

text \<open>In every row the counter is 1 when the row is completed and 0 when it is not.\<close>

definition progressInv :: "QuestProgress list \<Rightarrow> bool" where
  "progressInv rows = (\<forall>r \<in> set rows. progress r = (if completed r then 1 else 0))"

subsection \<open>Example databases\<close>

text \<open>
  A catalogue with one group and two quests: \<open>q1\<close> awards 100 XP and 5 points to the
  attribute \<open>mental\<close>, \<open>q2\<close> awards 900 XP and 3 available points.
\<close>

definition mentalQuest :: Quest where
  "mentalQuest = \<lparr>quest_id = ''q1'', groupId = Some ''g1'', xpReward = Some 100,
                   attributePointReward = Some 5, targetAttribute = Some ''mental''\<rparr>"

definition freeQuest :: Quest where
  "freeQuest = \<lparr>quest_id = ''q2'', groupId = Some ''g1'', xpReward = Some 900,
                 attributePointReward = Some 3, targetAttribute = None\<rparr>"

definition freshDb :: db where
  "freshDb = \<lparr>questGroups = [\<lparr>group_id = ''g1''\<rparr>], quests = [mentalQuest, freeQuest],
               questProgress = [], profile = Some defaultProfile\<rparr>"

text \<open>
  The database after \<open>q1\<close> was completed at time 5 and archived at time 7, written out.
\<close>

definition completedProfile :: Profile where
  "completedProfile = \<lparr>level = 1, xp = 100, cumulativeXp = 100, availablePoints = 0,
                        attributes = defaultAttributes(''mental'' \<mapsto> 15)\<rparr>"

definition archivedRow :: QuestProgress where
  "archivedRow = \<lparr>questId = ''q1'', progress = 1, completed = True, completedAt = Some 5,
                   isArchived = True, archivedAt = Some 7,
                   archiveReason = Some ''Archived by user'', canUndo = True\<rparr>"

definition archivedDb :: db where
  "archivedDb = \<lparr>questGroups = [\<lparr>group_id = ''g1''\<rparr>], quests = [mentalQuest, freeQuest],
                  questProgress = [archivedRow], profile = Some completedProfile\<rparr>"

text \<open>The database after \<open>q1\<close> was completed at time 5.\<close>

definition completedDb :: db where
  "completedDb = \<lparr>questGroups = [\<lparr>group_id = ''g1''\<rparr>], quests = [mentalQuest, freeQuest],
                   questProgress = [insertValues 5 ''q1''], profile = Some completedProfile\<rparr>"

text \<open>
  The database of the level-curve scenario (750 XP), before and after the completion of
  \<open>q1\<close> at time 5.
\<close>

definition scenarioDb :: db where
  "scenarioDb = \<lparr>questGroups = [\<lparr>group_id = ''g1''\<rparr>], quests = [mentalQuest, freeQuest],
                  questProgress = [],
                  profile = Some \<lparr>level = 1, xp = 750, cumulativeXp = 750, availablePoints = 0,
                                  attributes = defaultAttributes\<rparr>\<rparr>"

definition scenarioCompletedDb :: db where
  "scenarioCompletedDb =
     \<lparr>questGroups = [\<lparr>group_id = ''g1''\<rparr>], quests = [mentalQuest, freeQuest],
      questProgress = [insertValues 5 ''q1''],
      profile = Some \<lparr>level = 2, xp = 850, cumulativeXp = 850, availablePoints = 1,
                      attributes = defaultAttributes(''mental'' \<mapsto> 15)\<rparr>\<rparr>"

text \<open>
  A catalogue with a quest whose XP reward is negative, as \<^verbatim>\<open>POST /api/quests\<close> accepts
  it (the insert schema sets no minimum), with the default profile and no progress row.
\<close>

definition penaltyQuest :: Quest where
  "penaltyQuest = \<lparr>quest_id = ''q3'', groupId = Some ''g1'', xpReward = Some (- 900),
                    attributePointReward = Some 1, targetAttribute = None\<rparr>"

definition penaltyDb :: db where
  "penaltyDb = \<lparr>questGroups = [\<lparr>group_id = ''g1''\<rparr>], quests = [penaltyQuest],
                 questProgress = [], profile = Some defaultProfile\<rparr>"

text \<open>
  The database in which \<open>q2\<close> was completed at time 5 while the profile table was empty, and
  \<^verbatim>\<open>getProfile\<close> then created the default profile.
\<close>

definition lateProfileDb :: db where
  "lateProfileDb = \<lparr>questGroups = [\<lparr>group_id = ''g1''\<rparr>], quests = [mentalQuest, freeQuest],
                     questProgress = [insertValues 5 ''q2''], profile = Some defaultProfile\<rparr>"

section \<open>Lemmas on the storage primitives\<close>

lemma first_row_filter: "first_row (map f (filter P rows)) = map_option f (find P rows)"
  by (induction rows) auto

lemma find_update:
  assumes "\<And>r. questId (f r) = questId r"
  shows "find (\<lambda>r. questId r = qid) (map (\<lambda>r. if questId r = qid then f r else r) rows)
           = map_option f (find (\<lambda>r. questId r = qid) rows)"
  using assms by (induction rows) auto

lemma find_append_new: "find P rows = None \<Longrightarrow> P new \<Longrightarrow> find P (rows @ [new]) = Some new"
  by (induction rows) (auto split: if_splits)

lemma filter_Nil_find: "filter P rows = [] \<Longrightarrow> find P rows = None"
  by (induction rows) (auto split: if_splits)

lemma filter_Cons_find: "filter P rows = r # rs \<Longrightarrow> find P rows = Some r"
  by (induction rows) (auto split: if_splits)

lemma find_Some_filter: "find P rows = Some r \<Longrightarrow> filter P rows \<noteq> []"
  by (induction rows) (auto split: if_splits)

lemma find_SomeD: "find P rows = Some r \<Longrightarrow> P r \<and> r \<in> set rows"
  by (induction rows) (auto split: if_splits)

lemma upsertCompleted_cases:
  "upsertCompleted now qid rows =
     (case find (\<lambda>r. questId r = qid) rows of
        None \<Rightarrow> (rows @ [insertValues now qid], insertValues now qid)
      | Some r \<Rightarrow>
          (map (\<lambda>r. if questId r = qid then onConflict now r else r) rows, onConflict now r))"
proof (cases "filter (\<lambda>r. questId r = qid) rows")
  case Nil
  then show ?thesis
    by (simp add: upsertCompleted_def update_returning_def filter_Nil_find)
next
  case (Cons r rs)
  then show ?thesis
    by (simp add: upsertCompleted_def update_returning_def filter_Cons_find)
qed

lemma questId_onConflict [simp]: "questId (onConflict now r) = questId r"
  by (simp add: onConflict_def)

lemma questId_resetCompletion [simp]: "questId (resetCompletion r) = questId r"
  by (simp add: resetCompletion_def)

lemma questId_resetAll [simp]: "questId (resetAll r) = questId r"
  by (simp add: resetAll_def)

text \<open>The definitions that evaluate the calls on the example databases.\<close>

lemma upsert_find:
  "find (\<lambda>r. questId r = qid) (fst (upsertCompleted now qid rows))
     = Some (snd (upsertCompleted now qid rows))"
  by (auto simp add: upsertCompleted_cases find_update find_append_new insertValues_def
      split: option.splits)

lemmas eval_defs = completeQuest_def getQuest_def mentalQuest_def freeQuest_def
      transaction_def upsertCompleted_def update_returning_def insertValues_def Let_def
      completeProfile_def defaultProfile_def awardsPoints_def truthyTarget_def
      allowedAttributes_def or0_def cancelQuestCompletion_def getQuestProgress_def
      resetCompletion_def cancelProfile_def onConflict_def defaultAttributes_def
      undoQuestCompletion_def undoProfile_def resetAll_def inactive_def

text \<open>The progress table after a call is the table before it or the table its one write produces.\<close>

lemma questProgress_complete:
  "questProgress (fst (completeQuest now qid s)) = questProgress s \<or>
   questProgress (fst (completeQuest now qid s)) = fst (upsertCompleted now qid (questProgress s))"
  by (auto simp add: completeQuest_def transaction_def Let_def
      split: option.splits prod.splits sum.splits)

lemma questProgress_cancel:
  "questProgress (fst (cancelQuestCompletion qid s)) = questProgress s \<or>
   questProgress (fst (cancelQuestCompletion qid s)) =
     fst (update_returning qid resetCompletion (questProgress s))"
  by (auto simp add: cancelQuestCompletion_def transaction_def Let_def
      split: option.splits prod.splits sum.splits)

lemma questProgress_undo:
  "questProgress (fst (undoQuestCompletion qid s)) = questProgress s \<or>
   questProgress (fst (undoQuestCompletion qid s)) =
     fst (update_returning qid resetAll (questProgress s))"
  by (auto simp add: undoQuestCompletion_def transaction_def Let_def
      split: option.splits prod.splits sum.splits)

section \<open>Frame conditions of the rollbacks\<close>

lemma cancelProfile_cumulativeXp:
  "cancelProfile quest p = Inr p' \<Longrightarrow> cumulativeXp p' = cumulativeXp p"
  by (auto simp add: cancelProfile_def Let_def split: option.splits if_splits)

lemma undoProfile_xp_level:
  "undoProfile quest p = Inr p' \<Longrightarrow> xp p' = xp p \<and> level p' = level p"
  by (auto simp add: undoProfile_def Let_def split: option.splits if_splits)

text \<open>
  Claim C5. Whatever the database and the quest id, and whether the call succeeds or throws,
  \<^verbatim>\<open>cancelQuestCompletion\<close> leaves the \<^verbatim>\<open>cumulativeXp\<close> of the profile row as it was, and
  \<^verbatim>\<open>undoQuestCompletion\<close> leaves its \<^verbatim>\<open>xp\<close> and its \<^verbatim>\<open>level\<close> as they were (and neither
  creates nor removes the profile row).
\<close>

theorem C5_rollback_frame:
  "map_option cumulativeXp (profile (fst (cancelQuestCompletion qid s)))
     = map_option cumulativeXp (profile s) \<and>
   map_option xp (profile (fst (undoQuestCompletion qid s))) = map_option xp (profile s) \<and>
   map_option level (profile (fst (undoQuestCompletion qid s))) = map_option level (profile s)"
  by (auto simp add: cancelQuestCompletion_def undoQuestCompletion_def transaction_def Let_def
      dest: undoProfile_xp_level cancelProfile_cumulativeXp
      split: option.splits prod.splits sum.splits)

section \<open>Errors of cancelQuestCompletion and deleteArchivedQuest\<close>

text \<open>
  Claim C8. \<^verbatim>\<open>cancelQuestCompletion\<close> throws 'Quest not found' (the NotFound of the
  specification) when no quest has the id, and 'Quest not completed' (its InvalidState) when
  the quest exists and its progress row is missing or not completed. In both cases the
  database it leaves is the database it was called on: progress rows and profile are
  unchanged.
\<close>

theorem C8_cancel_errors:
  "(getQuest s qid = None \<longrightarrow> cancelQuestCompletion qid s = (s, Inl QuestNotFound)) \<and>
   (getQuest s qid \<noteq> None \<and>
      (getQuestProgress s qid = None \<or> (\<exists>r. getQuestProgress s qid = Some r \<and> \<not> completed r))
      \<longrightarrow> cancelQuestCompletion qid s = (s, Inl QuestNotCompleted))"
  by (auto simp add: cancelQuestCompletion_def split: option.splits)

theorem C8_cancel_errors_witness:
  "cancelQuestCompletion ''q0'' freshDb = (freshDb, Inl QuestNotFound) \<and>
   cancelQuestCompletion ''q1'' freshDb = (freshDb, Inl QuestNotCompleted)"
proof -
  have a: "getQuest freshDb ''q0'' = None"
    by (simp add: getQuest_def freshDb_def mentalQuest_def freeQuest_def)
  have b: "getQuest freshDb ''q1'' \<noteq> None \<and>
      (getQuestProgress freshDb ''q1'' = None \<or>
       (\<exists>r. getQuestProgress freshDb ''q1'' = Some r \<and> \<not> completed r))"
    by (simp add: getQuest_def getQuestProgress_def freshDb_def mentalQuest_def)
  from a C8_cancel_errors [of freshDb "''q0''"]
  have "cancelQuestCompletion ''q0'' freshDb = (freshDb, Inl QuestNotFound)" by blast
  moreover from b C8_cancel_errors [of freshDb "''q1''"]
  have "cancelQuestCompletion ''q1'' freshDb = (freshDb, Inl QuestNotCompleted)" by blast
  ultimately show ?thesis by simp
qed

text \<open>Every throw of \<^verbatim>\<open>cancelQuestCompletion\<close> leaves the database unchanged.\<close>

lemma cancel_throw_unchanged:
  "snd (cancelQuestCompletion qid s) = Inl e \<Longrightarrow> fst (cancelQuestCompletion qid s) = s"
  by (auto simp add: cancelQuestCompletion_def transaction_def Let_def
      split: option.splits prod.splits sum.splits if_splits)

lemma archivedDb_reached:
  "archivedDb = run [Complete 5 ''q1'', Archive 7 ''q1'' ''Archived by user''] freshDb"
  by (simp add: archivedDb_def freshDb_def completeQuest_def getQuest_def mentalQuest_def
      freeQuest_def transaction_def upsertCompleted_def update_returning_def insertValues_def
      Let_def completeProfile_def defaultProfile_def awardsPoints_def truthyTarget_def
      allowedAttributes_def or0_def completedProfile_def archiveQuest_def getQuestProgress_def
      archivedRow_def defaultAttributes_def)

text \<open>
  Claim C7, as amended. \<^verbatim>\<open>deleteArchivedQuest\<close> succeeds exactly when the progress row of
  the quest exists and is archived, and it then removes the row. In every other case, a row
  that is not archived and also a missing row, it throws 'Quest not archived' (the
  InvalidState of the specification) and leaves the database unchanged; it has no not-found
  error.
\<close>

theorem C7_deleteArchived:
  "((\<exists>r. getQuestProgress s qid = Some r \<and> isArchived r) \<longrightarrow>
      (\<exists>b. snd (deleteArchivedQuest qid s) = Inr b) \<and>
      fst (deleteArchivedQuest qid s) =
        s\<lparr>questProgress := filter (\<lambda>r. questId r \<noteq> qid) (questProgress s)\<rparr> \<and>
      getQuestProgress (fst (deleteArchivedQuest qid s)) qid = None) \<and>
   (\<not> (\<exists>r. getQuestProgress s qid = Some r \<and> isArchived r) \<longrightarrow>
      deleteArchivedQuest qid s = (s, Inl QuestNotArchived))"
  by (auto simp add: deleteArchivedQuest_def getQuestProgress_def Let_def
      find_None_iff dest: find_SomeD split: option.splits)

theorem C7_deleteArchived_witness:
  "(\<exists>b. snd (deleteArchivedQuest ''q1'' archivedDb) = Inr b) \<and>
   questProgress (fst (deleteArchivedQuest ''q1'' archivedDb)) = [] \<and>
   deleteArchivedQuest ''q1'' freshDb = (freshDb, Inl QuestNotArchived)"
proof -
  have a: "\<exists>r. getQuestProgress archivedDb ''q1'' = Some r \<and> isArchived r"
    by (simp add: getQuestProgress_def archivedDb_def archivedRow_def)
  have b: "\<not> (\<exists>r. getQuestProgress freshDb ''q1'' = Some r \<and> isArchived r)"
    by (simp add: getQuestProgress_def freshDb_def)
  from a C7_deleteArchived [of archivedDb "''q1''"]
  have c: "(\<exists>b. snd (deleteArchivedQuest ''q1'' archivedDb) = Inr b) \<and>
      fst (deleteArchivedQuest ''q1'' archivedDb) =
        archivedDb\<lparr>questProgress :=
          filter (\<lambda>r. questId r \<noteq> ''q1'') (questProgress archivedDb)\<rparr>"
    by blast
  then have "questProgress (fst (deleteArchivedQuest ''q1'' archivedDb)) = []"
    by (simp add: archivedDb_def archivedRow_def)
  moreover from b C7_deleteArchived [of freshDb "''q1''"]
  have "deleteArchivedQuest ''q1'' freshDb = (freshDb, Inl QuestNotArchived)" by blast
  ultimately show ?thesis using c by simp
qed

text \<open>
  The claim as stated fails where no progress row exists: the error is 'Quest not archived',
  not a not-found error.
\<close>

theorem C7_missing_row_counterexample:
  "getQuestProgress freshDb ''q1'' = None \<and>
   snd (deleteArchivedQuest ''q1'' freshDb) = Inl QuestNotArchived \<and>
   snd (deleteArchivedQuest ''q1'' freshDb) \<noteq> Inl QuestNotFound \<and>
   snd (deleteArchivedQuest ''q1'' freshDb) \<noteq> Inl QuestProgressNotFound"
  by (simp add: deleteArchivedQuest_def getQuestProgress_def freshDb_def)

text \<open>
  The value \<^verbatim>\<open>deleteArchivedQuest\<close> returns after the deletion is false: the result of
  the driver has no \<^verbatim>\<open>rowCount\<close>.
\<close>

lemma deleteArchivedQuest_returns:
  "snd (deleteArchivedQuest qid s) = Inr b \<Longrightarrow> b = False"
  by (auto simp add: deleteArchivedQuest_def Let_def rowCount_def deleted_def split: if_splits)

section \<open>The progress counter\<close>

lemma progressInv_update:
  assumes "progressInv rows"
    and "\<And>r. progress r = (if completed r then 1 else 0)
           \<Longrightarrow> progress (f r) = (if completed (f r) then 1 else 0)"
  shows "progressInv (fst (update_returning qid f rows))"
  using assms by (auto simp add: progressInv_def update_returning_def)

lemma progressInv_upsert:
  "progressInv rows \<Longrightarrow> progressInv (fst (upsertCompleted now qid rows))"
  by (auto simp add: upsertCompleted_cases progressInv_def onConflict_def insertValues_def
      split: option.splits)

lemma progressInv_apply_op:
  assumes "progressInv (questProgress s)"
  shows "progressInv (questProgress (apply_op x s))"
proof (cases x)
  case (Complete now qid)
  then show ?thesis
    using assms questProgress_complete [of now qid s] by (auto simp add: progressInv_upsert)
next
  case (Cancel qid)
  then show ?thesis
    using assms questProgress_cancel [of qid s]
    by (auto simp add: progressInv_update resetCompletion_def)
next
  case (Archive now qid reason)
  then show ?thesis
    using assms
    by (auto simp add: archiveQuest_def progressInv_def update_returning_def
        split: option.splits)
next
  case (RestoreFromArchive qid)
  then show ?thesis
    using assms
    by (auto simp add: restoreQuestFromArchive_def progressInv_def update_returning_def
        split: option.splits)
next
  case (DeleteArchived qid)
  then show ?thesis
    using assms by (auto simp add: deleteArchivedQuest_def progressInv_def Let_def)
next
  case (Undo qid)
  then show ?thesis
    using assms questProgress_undo [of qid s] by (auto simp add: progressInv_update resetAll_def)
qed

lemma progressInv_run:
  "progressInv (questProgress s) \<Longrightarrow> progressInv (questProgress (run ops s))"
  by (induction ops arbitrary: s) (auto simp add: progressInv_apply_op)

lemma completeQuest_result:
  "snd (completeQuest now qid s) = Inr r \<Longrightarrow> r = snd (upsertCompleted now qid (questProgress s))"
  by (auto simp add: completeQuest_def transaction_def Let_def
      split: option.splits prod.splits sum.splits if_splits)

lemma upsert_flip:
  assumes "progressInv rows"
    and "case find (\<lambda>r. questId r = qid) rows of None \<Rightarrow> True | Some r0 \<Rightarrow> \<not> completed r0"
  shows "progress (snd (upsertCompleted now qid rows)) = 1 \<and>
         completed (snd (upsertCompleted now qid rows))"
  using assms
  by (auto simp add: upsertCompleted_cases insertValues_def onConflict_def progressInv_def
      dest!: find_SomeD split: option.splits)

lemma completeQuest_stored:
  "snd (completeQuest now qid s) = Inr r \<Longrightarrow>
     getQuestProgress (fst (completeQuest now qid s)) qid = Some r"
proof -
  assume a: "snd (completeQuest now qid s) = Inr r"
  obtain rows' r' where u: "upsertCompleted now qid (questProgress s) = (rows', r')"
    by (cases "upsertCompleted now qid (questProgress s)")
  have f: "find (\<lambda>r. questId r = qid) rows' = Some r'"
    using upsert_find [of qid now "questProgress s"] u by simp
  show ?thesis
    using a u f
    by (auto simp add: completeQuest_def transaction_def Let_def getQuestProgress_def
        split: option.splits sum.splits if_splits)
qed

text \<open>
  Claim C10. Start from a database without progress rows and run any sequence of engine
  operations (Complete, Cancel, Archive, RestoreFromArchive, DeleteArchived, Undo, with any
  arguments, failing calls included). In the database reached, every progress row that is
  not completed has progress 0; and whenever \<^verbatim>\<open>completeQuest\<close> then succeeds on a quest
  that has no row or a row that is not completed, the row it returns is completed and has
  progress exactly 1, and it is the row stored for the quest.
\<close>

theorem C10_progress_invariant:
  assumes "questProgress s0 = []"
  shows "(\<forall>r \<in> set (questProgress (run ops s0)). \<not> completed r \<longrightarrow> progress r = 0) \<and>
         (\<forall>now qid r.
            (case getQuestProgress (run ops s0) qid of
               None \<Rightarrow> True | Some r0 \<Rightarrow> \<not> completed r0) \<and>
            snd (completeQuest now qid (run ops s0)) = Inr r
            \<longrightarrow> completed r \<and> progress r = 1 \<and>
                getQuestProgress (fst (completeQuest now qid (run ops s0))) qid = Some r)"
proof -
  have "progressInv (questProgress s0)"
    using assms by (simp add: progressInv_def)
  then have inv: "progressInv (questProgress (run ops s0))"
    by (rule progressInv_run)
  then have "\<forall>r \<in> set (questProgress (run ops s0)). \<not> completed r \<longrightarrow> progress r = 0"
    by (simp add: progressInv_def)
  moreover have "completed r \<and> progress r = 1 \<and>
      getQuestProgress (fst (completeQuest now qid (run ops s0))) qid = Some r"
    if "case getQuestProgress (run ops s0) qid of None \<Rightarrow> True | Some r0 \<Rightarrow> \<not> completed r0"
      and "snd (completeQuest now qid (run ops s0)) = Inr r" for now qid r
    using upsert_flip [OF inv, of qid now] that
      completeQuest_result [of now qid "run ops s0" r]
      completeQuest_stored [of now qid "run ops s0" r]
    by (simp add: getQuestProgress_def)
  ultimately show ?thesis by blast
qed

text \<open>
  Quest \<open>q2\<close> has no target attribute, so its cancellation succeeds: after a completion and
  a cancellation its row is there and not completed, and the next completion flips it.
\<close>

lemma cancelled_rows:
  "questProgress (run [Complete 5 ''q2'', Cancel ''q2''] freshDb) =
     [\<lparr>questId = ''q2'', progress = 0, completed = False, completedAt = None,
       isArchived = False, archivedAt = None, archiveReason = None, canUndo = True\<rparr>]"
  by (simp add: freshDb_def eval_defs)

lemma cancelled_recomplete:
  "snd (completeQuest 9 ''q2'' (run [Complete 5 ''q2'', Cancel ''q2''] freshDb)) =
     Inr \<lparr>questId = ''q2'', progress = 1, completed = True, completedAt = Some 9,
          isArchived = False, archivedAt = None, archiveReason = None, canUndo = True\<rparr>"
  by (simp add: freshDb_def eval_defs)

theorem C10_progress_invariant_witness:
  "questProgress freshDb = [] \<and>
   (\<exists>r. snd (completeQuest 9 ''q2'' (run [Complete 5 ''q2'', Cancel ''q2''] freshDb)) = Inr r \<and>
        completed r \<and> progress r = 1 \<and>
        getQuestProgress
          (fst (completeQuest 9 ''q2'' (run [Complete 5 ''q2'', Cancel ''q2''] freshDb))) ''q2''
          = Some r)"
proof -
  have a: "questProgress freshDb = []"
    by (simp add: freshDb_def)
  have b: "case getQuestProgress (run [Complete 5 ''q2'', Cancel ''q2''] freshDb) ''q2'' of
             None \<Rightarrow> True | Some r0 \<Rightarrow> \<not> completed r0"
    unfolding getQuestProgress_def cancelled_rows by simp
  from C10_progress_invariant [OF a, of "[Complete 5 ''q2'', Cancel ''q2'']"] b
    cancelled_recomplete
  have "\<exists>r. snd (completeQuest 9 ''q2'' (run [Complete 5 ''q2'', Cancel ''q2''] freshDb)) = Inr r \<and>
        completed r \<and> progress r = 1 \<and>
        getQuestProgress
          (fst (completeQuest 9 ''q2'' (run [Complete 5 ''q2'', Cancel ''q2''] freshDb))) ''q2''
          = Some r"
    by blast
  with a show ?thesis by simp
qed

section \<open>The profile updates, field by field\<close>

lemma completeProfile_Inr:
  "(\<exists>p1. completeProfile quest p = Inr p1) \<longleftrightarrow>
   (case awardTarget quest of None \<Rightarrow> True | Some t \<Rightarrow> t \<in> set allowedAttributes)"
  by (simp add: completeProfile_def awardTarget_def Let_def split: option.splits)

lemma completeProfile_xp:
  "completeProfile quest p = Inr p1 \<Longrightarrow> xp p1 = xp p + or0 (xpReward quest)"
  by (auto simp add: completeProfile_def Let_def split: option.splits if_splits)

lemma completeProfile_level:
  "completeProfile quest p = Inr p1 \<Longrightarrow> level p1 = (xp p + or0 (xpReward quest)) div 800 + 1"
  by (auto simp add: completeProfile_def Let_def split: option.splits if_splits)

lemma completeProfile_cumulativeXp:
  "completeProfile quest p = Inr p1 \<Longrightarrow> cumulativeXp p1 = cumulativeXp p + or0 (xpReward quest)"
  by (auto simp add: completeProfile_def Let_def split: option.splits if_splits)

lemma completeProfile_availablePoints:
  "completeProfile quest p = Inr p1 \<Longrightarrow>
     availablePoints p1 = availablePoints p + freePoints quest +
        max 0 ((xp p + or0 (xpReward quest)) div 800 - xp p div 800)"
  by (auto simp add: completeProfile_def freePoints_def Let_def split: option.splits if_splits)

lemma completeProfile_attributes:
  "completeProfile quest p = Inr p1 \<Longrightarrow>
     attributes p1 =
       (case awardTarget quest of
          None \<Rightarrow> attributes p
        | Some t \<Rightarrow> (attributes p)(t \<mapsto>
                      min 100 (or0 (attributes p t) + or0 (attributePointReward quest))))"
  by (auto simp add: completeProfile_def awardTarget_def Let_def split: option.splits if_splits)

lemma cancelProfile_Inr:
  "(\<exists>p1. cancelProfile quest p = Inr p1) \<longleftrightarrow> awardTarget quest = None"
  by (simp add: cancelProfile_def awardTarget_def Let_def split: option.splits)

lemma cancelProfile_Inl:
  "awardTarget quest = Some t \<Longrightarrow> cancelProfile quest p = Inl InvalidJsonbInput"
  by (simp add: cancelProfile_def awardTarget_def Let_def split: if_splits)

lemma cancelProfile_xp:
  "cancelProfile quest p = Inr p1 \<Longrightarrow> xp p1 = max 0 (xp p - or0 (xpReward quest))"
  by (auto simp add: cancelProfile_def Let_def split: option.splits if_splits)

lemma cancelProfile_level:
  "cancelProfile quest p = Inr p1 \<Longrightarrow>
     level p1 = max 0 (xp p - or0 (xpReward quest)) div 800 + 1"
  by (auto simp add: cancelProfile_def Let_def split: option.splits if_splits)

lemma cancelProfile_availablePoints:
  "cancelProfile quest p = Inr p1 \<Longrightarrow>
     availablePoints p1 =
       (let levelDecrease = xp p div 800 - max 0 (xp p - or0 (xpReward quest)) div 800
        in if levelDecrease > 0
           then max 0 (availablePoints p - freePoints quest - levelDecrease)
           else availablePoints p - freePoints quest)"
  by (auto simp add: cancelProfile_def freePoints_def Let_def split: option.splits if_splits)

lemma cancelProfile_attributes:
  "cancelProfile quest p = Inr p1 \<Longrightarrow> attributes p1 = attributes p"
  by (auto simp add: cancelProfile_def Let_def split: option.splits if_splits)

lemma undoProfile_Inr:
  "(\<exists>p1. undoProfile quest p = Inr p1) \<longleftrightarrow>
   (case awardTarget quest of None \<Rightarrow> True | Some t \<Rightarrow> t \<in> set allowedAttributes)"
  by (simp add: undoProfile_def awardTarget_def Let_def split: option.splits)

lemma undoProfile_cumulativeXp:
  "undoProfile quest p = Inr p1 \<Longrightarrow>
     cumulativeXp p1 = max 0 (cumulativeXp p - or0 (xpReward quest))"
  by (auto simp add: undoProfile_def Let_def split: option.splits if_splits)

lemma undoProfile_availablePoints:
  "undoProfile quest p = Inr p1 \<Longrightarrow>
     availablePoints p1 = max 0 (availablePoints p - freePoints quest) \<or>
     freePoints quest = 0 \<and> availablePoints p1 = availablePoints p"
  by (auto simp add: undoProfile_def freePoints_def Let_def split: option.splits if_splits)

lemma undoProfile_attributes:
  "undoProfile quest p = Inr p1 \<Longrightarrow>
     attributes p1 =
       (case awardTarget quest of
          None \<Rightarrow> attributes p
        | Some t \<Rightarrow> (attributes p)(t \<mapsto>
                      max 0 (or0 (attributes p t) - or0 (attributePointReward quest))))"
  by (auto simp add: undoProfile_def awardTarget_def Let_def split: option.splits if_splits)

lemma freePoints_nonneg: "0 \<le> freePoints quest"
  by (simp add: freePoints_def awardsPoints_def or0_def split: option.splits)

section \<open>The calls on an inactive and on a completed quest\<close>

lemma upsert_inactive:
  assumes "case find (\<lambda>r. questId r = qid) rows of None \<Rightarrow> True | Some r0 \<Rightarrow> \<not> completed r0"
  shows "completed (snd (upsertCompleted now qid rows)) \<and>
         completedAt (snd (upsertCompleted now qid rows)) = Some now"
  using assms
  by (auto simp add: upsertCompleted_cases insertValues_def onConflict_def split: option.splits)

lemma completeQuest_inactive:
  assumes "getQuest s qid = Some quest" and "inactive s qid" and "profile s = Some p"
  shows "completeQuest now qid s =
           (case completeProfile quest p of
              Inl e \<Rightarrow> (s, Inl e)
            | Inr p' \<Rightarrow>
                (s\<lparr>questProgress := fst (upsertCompleted now qid (questProgress s)),
                   profile := Some p'\<rparr>,
                 Inr (snd (upsertCompleted now qid (questProgress s)))))"
proof -
  obtain rows' r' where u: "upsertCompleted now qid (questProgress s) = (rows', r')"
    by (cases "upsertCompleted now qid (questProgress s)")
  have "completed (snd (upsertCompleted now qid (questProgress s))) \<and>
         completedAt (snd (upsertCompleted now qid (questProgress s))) = Some now"
    using assms(2) by (intro upsert_inactive) (simp add: inactive_def getQuestProgress_def)
  then have "completed r' \<and> completedAt r' = Some now"
    using u by simp
  then show ?thesis
    using assms(1,3) u
    by (simp add: completeQuest_def transaction_def Let_def split: sum.splits)
qed

lemma cancel_completed:
  assumes "getQuest s qid = Some quest" and "getQuestProgress s qid = Some r" and "completed r"
    and "profile s = Some p"
  shows "cancelQuestCompletion qid s =
           (case cancelProfile quest p of
              Inl e \<Rightarrow> (s, Inl e)
            | Inr p' \<Rightarrow>
                (s\<lparr>questProgress := fst (update_returning qid resetCompletion (questProgress s)),
                   profile := Some p'\<rparr>,
                 Inr (Some (resetCompletion r))))"
  using assms
  by (simp add: cancelQuestCompletion_def transaction_def Let_def update_returning_def
      first_row_filter getQuestProgress_def split: sum.splits)

text \<open>
  For every completed quest that awards points to a target attribute, and with a profile row
  in place, the cancellation is rejected and rolled back.
\<close>

lemma cancel_with_target_rejected:
  assumes "getQuest s qid = Some quest" and "getQuestProgress s qid = Some r" and "completed r"
    and "profile s = Some p" and "awardTarget quest = Some t"
  shows "cancelQuestCompletion qid s = (s, Inl InvalidJsonbInput)"
  by (simp add: cancel_completed [OF assms(1-4)] cancelProfile_Inl [OF assms(5)])

lemma undo_completed:
  assumes "getQuest s qid = Some quest" and "getQuestProgress s qid = Some r" and "completed r"
    and "profile s = Some p"
  shows "undoQuestCompletion qid s =
           (case undoProfile quest p of
              Inl e \<Rightarrow> (s, Inl e)
            | Inr p' \<Rightarrow>
               (s\<lparr>questProgress := fst (update_returning qid resetAll (questProgress s)),
                  profile := Some p'\<rparr>,
                Inr (Some (resetAll r))))"
  using assms
  by (simp add: undoQuestCompletion_def transaction_def Let_def update_returning_def
      first_row_filter getQuestProgress_def split: sum.splits)

lemma completeQuest_inactive_Inr:
  assumes "getQuest s qid = Some quest" and "inactive s qid" and "profile s = Some p"
    and "completeQuest now qid s = (s1, Inr r1)"
  shows "\<exists>p1. completeProfile quest p = Inr p1 \<and> getQuest s1 qid = Some quest \<and>
         profile s1 = Some p1 \<and> getQuestProgress s1 qid = Some r1 \<and> completed r1"
proof (cases "completeProfile quest p")
  case (Inl e)
  then show ?thesis
    using assms(4) by (simp add: completeQuest_inactive [OF assms(1-3)])
next
  case (Inr p1)
  have "completed (snd (upsertCompleted now qid (questProgress s)))"
    using assms(2) upsert_inactive [of qid "questProgress s" now]
    by (simp add: inactive_def getQuestProgress_def)
  then show ?thesis
    using assms(1,4) Inr
    by (auto simp add: completeQuest_inactive [OF assms(1-3)] getQuest_def getQuestProgress_def
        upsert_find)
qed

section \<open>Complete followed by a rollback\<close>

text \<open>
  Where the quest awards no points to a target attribute the cancellation goes through: after
  a successful completion of an inactive quest, on a profile that satisfies the data model,
  it restores XP, level and available points and leaves cumulative XP and the attributes.
\<close>

lemma complete_cancel_without_target:
  assumes "getQuest s qid = Some quest" and "inactive s qid" and "profile s = Some p"
    and "0 \<le> xp p" and "0 \<le> availablePoints p" and "level p = xp p div 800 + 1"
    and "awardTarget quest = None"
    and "completeQuest now qid s = (s1, Inr r1)"
  shows "\<exists>p1 p2 s2.
           profile s1 = Some p1 \<and>
           cancelQuestCompletion qid s1 = (s2, Inr (Some (resetCompletion r1))) \<and>
           profile s2 = Some p2 \<and>
           xp p2 = xp p \<and> level p2 = level p \<and> availablePoints p2 = availablePoints p \<and>
           cumulativeXp p2 = cumulativeXp p1 \<and> attributes p2 = attributes p"
proof -
  from completeQuest_inactive_Inr [OF assms(1,2,3,8)]
  obtain p1 where p1: "completeProfile quest p = Inr p1" and q1: "getQuest s1 qid = Some quest"
    and pr1: "profile s1 = Some p1" and g1: "getQuestProgress s1 qid = Some r1"
    and c1: "completed r1"
    by blast
  from assms(7) obtain p2 where p2: "cancelProfile quest p1 = Inr p2"
    using cancelProfile_Inr [of quest p1] by blast
  define s2 where "s2 = fst (cancelQuestCompletion qid s1)"
  have c: "cancelQuestCompletion qid s1 = (s2, Inr (Some (resetCompletion r1)))"
    and pr2: "profile s2 = Some p2"
    by (simp_all add: s2_def cancel_completed [OF q1 g1 c1 pr1] p2)
  have x: "xp p2 = xp p"
    using assms(4) by (simp add: cancelProfile_xp [OF p2] completeProfile_xp [OF p1])
  have l: "level p2 = level p"
    using assms(4,6) by (simp add: cancelProfile_level [OF p2] completeProfile_xp [OF p1])
  have a: "availablePoints p2 = availablePoints p"
    using assms(4,5)
    by (simp add: cancelProfile_availablePoints [OF p2] completeProfile_xp [OF p1]
        completeProfile_availablePoints [OF p1] Let_def)
  have cx: "cumulativeXp p2 = cumulativeXp p1"
    by (rule cancelProfile_cumulativeXp [OF p2])
  have at: "attributes p2 = attributes p"
    using assms(7)
    by (simp add: cancelProfile_attributes [OF p2] completeProfile_attributes [OF p1])
  from pr1 c pr2 x l a cx at show ?thesis by blast
qed

text \<open>
  Claim C3 at the failing input. Quest \<open>q1\<close> (100 XP, 5 points to \<open>mental\<close>) is inactive
  and the profile is the default one. \<^verbatim>\<open>completeQuest\<close> succeeds: 100 XP, \<open>mental = 15\<close>.
  The \<^verbatim>\<open>cancelQuestCompletion\<close> that follows is rejected by the database and rolled back:
  the progress row stays completed and the profile keeps 100 XP and \<open>mental = 15\<close>, where the
  values before the completion were 0 XP and \<open>mental = 10\<close>.
\<close>

theorem C3_cancel_rejected:
  "inactive freshDb ''q1'' \<and> profile freshDb = Some defaultProfile \<and>
   completeQuest 5 ''q1'' freshDb = (completedDb, Inr (insertValues 5 ''q1'')) \<and>
   cancelQuestCompletion ''q1'' completedDb = (completedDb, Inl InvalidJsonbInput) \<and>
   profile completedDb = Some completedProfile \<and>
   xp defaultProfile = 0 \<and> xp completedProfile = 100 \<and>
   attributes defaultProfile ''mental'' = Some 10 \<and>
   attributes completedProfile ''mental'' = Some 15"
  by (simp add: prod_eq_iff completedDb_def completedProfile_def freshDb_def eval_defs)

text \<open>
  Claim C4, as amended. Let a quest be inactive and the profile row satisfy the data model
  (cumulative XP and available points not negative, level derived from XP). If
  \<^verbatim>\<open>completeQuest\<close> succeeds, the \<^verbatim>\<open>undoQuestCompletion\<close> that follows succeeds as well,
  restores cumulative XP to its value before the completion and leaves XP and level as the
  completion set them. The available points end at their value before the completion plus
  the levels the completion gained (the level bonus is not taken back), whether the quest has
  a target attribute or not. The target attribute, with a value in [0,100] before the
  completion, is restored when the credit did not hit the cap, and ends at \<open>100 - reward\<close>
  floored at 0 otherwise.
\<close>

theorem C4_complete_undo:
  assumes "getQuest s qid = Some quest" and "inactive s qid" and "profile s = Some p"
    and "0 \<le> cumulativeXp p" and "0 \<le> availablePoints p" and "level p = xp p div 800 + 1"
    and "completeQuest now qid s = (s1, Inr r1)"
    and "undoQuestCompletion qid s1 = (s2, res)"
  shows "\<exists>p1 p2 r2.
           profile s1 = Some p1 \<and> profile s2 = Some p2 \<and> res = Inr (Some r2) \<and> \<not> completed r2 \<and>
           cumulativeXp p2 = cumulativeXp p \<and> xp p2 = xp p1 \<and> level p2 = level p1 \<and>
           availablePoints p2 = availablePoints p + max 0 (level p1 - level p) \<and>
           (case awardTarget quest of
              None \<Rightarrow> attributes p2 = attributes p
            | Some t \<Rightarrow>
                (\<forall>k. k \<noteq> t \<longrightarrow> attributes p2 k = attributes p k) \<and>
                (\<forall>a. attributes p t = Some a \<and> 0 \<le> a \<and> a \<le> 100 \<longrightarrow>
                   attributes p2 t =
                     Some (if a + or0 (attributePointReward quest) \<le> 100 then a
                           else max 0 (100 - or0 (attributePointReward quest)))))"
proof -
  from completeQuest_inactive_Inr [OF assms(1,2,3,7)]
  obtain p1 where p1: "completeProfile quest p = Inr p1" and q1: "getQuest s1 qid = Some quest"
    and pr1: "profile s1 = Some p1" and g1: "getQuestProgress s1 qid = Some r1" and c1: "completed r1"
    by blast
  from p1 have "\<exists>p2. undoProfile quest p1 = Inr p2"
    using completeProfile_Inr [of quest p] undoProfile_Inr [of quest p1] by blast
  then obtain p2 where p2: "undoProfile quest p1 = Inr p2" by blast
  from undo_completed [OF q1 g1 c1 pr1] assms(8) p2
  have s2: "profile s2 = Some p2" and res: "res = Inr (Some (resetAll r1))"
    by auto
  have nc: "\<not> completed (resetAll r1)" by (simp add: resetAll_def)
  have c: "cumulativeXp p2 = cumulativeXp p"
    using assms(4) by (simp add: undoProfile_cumulativeXp [OF p2] completeProfile_cumulativeXp [OF p1])
  have xl: "xp p2 = xp p1 \<and> level p2 = level p1"
    using undoProfile_xp_level [OF p2] .
  have a: "availablePoints p2 = availablePoints p + max 0 (level p1 - level p)"
    using assms(5,6) undoProfile_availablePoints [OF p2] freePoints_nonneg [of quest]
    by (auto simp add: completeProfile_availablePoints [OF p1] completeProfile_level [OF p1])
  have at: "case awardTarget quest of
              None \<Rightarrow> attributes p2 = attributes p
            | Some t \<Rightarrow>
                (\<forall>k. k \<noteq> t \<longrightarrow> attributes p2 k = attributes p k) \<and>
                (\<forall>a. attributes p t = Some a \<and> 0 \<le> a \<and> a \<le> 100 \<longrightarrow>
                   attributes p2 t =
                     Some (if a + or0 (attributePointReward quest) \<le> 100 then a
                           else max 0 (100 - or0 (attributePointReward quest))))"
    by (auto simp add: undoProfile_attributes [OF p2] completeProfile_attributes [OF p1] or0_def
        split: option.splits)
  from pr1 s2 res nc c xl a at show ?thesis by blast
qed

theorem C4_complete_undo_witness:
  "\<exists>p2. profile (fst (undoQuestCompletion ''q2'' (fst (completeQuest 5 ''q2'' freshDb)))) = Some p2 \<and>
     cumulativeXp p2 = 0 \<and> xp p2 = 900 \<and> level p2 = 2 \<and> availablePoints p2 = 1 \<and>
     attributes p2 = defaultAttributes"
proof -
  have h1: "getQuest freshDb ''q2'' = Some freeQuest"
    by (simp add: getQuest_def freshDb_def mentalQuest_def freeQuest_def)
  have h2: "inactive freshDb ''q2''"
    by (simp add: inactive_def getQuestProgress_def freshDb_def)
  have h3: "profile freshDb = Some defaultProfile"
    by (simp add: freshDb_def)
  have h4: "0 \<le> cumulativeXp defaultProfile" "0 \<le> availablePoints defaultProfile"
    "level defaultProfile = xp defaultProfile div 800 + 1"
    by (simp_all add: defaultProfile_def)
  have h5: "completeQuest 5 ''q2'' freshDb =
              (fst (completeQuest 5 ''q2'' freshDb), Inr (insertValues 5 ''q2''))"
    by (simp add: prod_eq_iff freshDb_def eval_defs)
  have h6: "undoQuestCompletion ''q2'' (fst (completeQuest 5 ''q2'' freshDb)) =
              (fst (undoQuestCompletion ''q2'' (fst (completeQuest 5 ''q2'' freshDb))),
               snd (undoQuestCompletion ''q2'' (fst (completeQuest 5 ''q2'' freshDb))))"
    by simp
  have t: "awardTarget freeQuest = None"
    by (simp add: awardTarget_def awardsPoints_def truthyTarget_def freeQuest_def)
  have p1: "profile (fst (completeQuest 5 ''q2'' freshDb)) =
              Some \<lparr>level = 2, xp = 900, cumulativeXp = 900, availablePoints = 4,
                    attributes = defaultAttributes\<rparr>"
    by (simp add: freshDb_def eval_defs)
  have a: "cumulativeXp defaultProfile = 0" "level defaultProfile = 1"
    "availablePoints defaultProfile = 0" "attributes defaultProfile = defaultAttributes"
    by (simp_all add: defaultProfile_def)
  from C4_complete_undo [OF h1 h2 h3 h4 h5 h6] show ?thesis
    by (auto simp add: t a p1)
qed

text \<open>
  The claim as stated fails when the completion gains a level: quest \<open>q2\<close> (900 XP, 3 points,
  no target attribute) takes the available points from 0 to 4, and the undo back to 1.
\<close>

theorem C4_level_bonus_counterexample:
  "inactive freshDb ''q2'' \<and>
   snd (completeQuest 5 ''q2'' freshDb) = Inr (insertValues 5 ''q2'') \<and>
   snd (undoQuestCompletion ''q2'' (fst (completeQuest 5 ''q2'' freshDb)))
     = Inr (Some (resetAll (insertValues 5 ''q2''))) \<and>
   targetAttribute freeQuest = None \<and>
   map_option availablePoints (profile freshDb) = Some 0 \<and>
   map_option availablePoints
     (profile (fst (undoQuestCompletion ''q2'' (fst (completeQuest 5 ''q2'' freshDb))))) = Some 1"
  by (simp add: freshDb_def eval_defs)

text \<open>
  Claim C9 at the failing input. In the scenario (quest \<open>q1\<close> with 100 XP and 5 points to
  \<open>mental\<close>, profile with 750 XP, level 1, \<open>mental = 10\<close>) \<^verbatim>\<open>completeQuest\<close> yields 850
  XP, level 2, one more available point and \<open>mental = 15\<close>, as the claim says. The
  \<^verbatim>\<open>cancelQuestCompletion\<close> that follows is rejected by the database and rolled back: the
  profile stays at 850 XP, level 2, \<open>mental = 15\<close> and the extra available point, and the
  progress row stays completed.
\<close>

theorem C9_scenario_cancel_rejected:
  "getQuest scenarioDb ''q1'' = Some mentalQuest \<and> inactive scenarioDb ''q1'' \<and>
   profile scenarioDb
     = Some \<lparr>level = 1, xp = 750, cumulativeXp = 750, availablePoints = 0,
             attributes = defaultAttributes\<rparr> \<and>
   completeQuest 5 ''q1'' scenarioDb = (scenarioCompletedDb, Inr (insertValues 5 ''q1'')) \<and>
   profile scenarioCompletedDb
     = Some \<lparr>level = 2, xp = 850, cumulativeXp = 850, availablePoints = 1,
             attributes = defaultAttributes(''mental'' \<mapsto> 15)\<rparr> \<and>
   cancelQuestCompletion ''q1'' scenarioCompletedDb
     = (scenarioCompletedDb, Inl InvalidJsonbInput) \<and>
   getQuestProgress scenarioCompletedDb ''q1'' = Some (insertValues 5 ''q1'') \<and>
   completed (insertValues 5 ''q1'')"
  by (simp add: prod_eq_iff scenarioDb_def scenarioCompletedDb_def eval_defs)

section \<open>Bounds of the ledger\<close>

lemma pointsOf_nonneg: "0 \<le> pointsOf qs r"
  by (simp add: pointsOf_def freePoints_nonneg split: option.splits)

lemma pending_nonneg: "0 \<le> pending qs rows"
  by (induction rows) (simp_all add: pending_def pointsOf_nonneg)

lemma pending_append: "pending qs (rows @ [new]) = pending qs rows + pointsOf qs new"
  by (simp add: pending_def)

lemma pending_filter: "pending qs (filter P rows) \<le> pending qs rows"
proof (induction rows)
  case Nil
  then show ?case by simp
next
  case (Cons a rows)
  then show ?case using pointsOf_nonneg [of qs a] by (simp add: pending_def)
qed

lemma map_other_id:
  "qid \<notin> questId ` set rows \<Longrightarrow> map (\<lambda>r. if questId r = qid then f r else r) rows = rows"
  by (induction rows) auto

lemma pending_update:
  assumes "distinct (map questId rows)" and "find (\<lambda>r. questId r = qid) rows = Some r"
  shows "pending qs (map (\<lambda>r. if questId r = qid then f r else r) rows)
           = pending qs rows - pointsOf qs r + pointsOf qs (f r)"
  using assms
proof (induction rows)
  case Nil
  then show ?case by simp
next
  case (Cons a rows)
  show ?case
  proof (cases "questId a = qid")
    case True
    then have "a = r" using Cons.prems(2) by simp
    moreover have "qid \<notin> questId ` set rows" using Cons.prems(1) True by auto
    ultimately show ?thesis using True by (simp add: pending_def map_other_id)
  next
    case False
    then show ?thesis using Cons by (simp add: pending_def)
  qed
qed

lemma questIds_update:
  "(\<And>r. questId (f r) = questId r) \<Longrightarrow>
   map (questId \<circ> (\<lambda>r. if questId r = qid then f r else r)) rows = map questId rows"
  by (induction rows) auto

lemma distinct_update_returning:
  "(\<And>r. questId (f r) = questId r) \<Longrightarrow> distinct (map questId rows) \<Longrightarrow>
   distinct (map questId (fst (update_returning qid f rows)))"
  by (simp add: update_returning_def questIds_update)

lemma find_None_ids: "find (\<lambda>r. questId r = qid) rows = None \<Longrightarrow> qid \<notin> questId ` set rows"
  by (auto simp add: find_None_iff)

lemma distinct_upsert:
  "distinct (map questId rows) \<Longrightarrow> distinct (map questId (fst (upsertCompleted now qid rows)))"
  by (auto simp add: upsertCompleted_cases questIds_update insertValues_def
      dest: find_None_ids split: option.splits)

lemma pending_upsert:
  assumes "distinct (map questId rows)"
  shows "pending qs (fst (upsertCompleted now qid rows)) =
           pending qs rows +
             (if (case find (\<lambda>r. questId r = qid) rows of None \<Rightarrow> True | Some r \<Rightarrow> \<not> completed r)
              then questPoints qs qid else 0)"
proof (cases "find (\<lambda>r. questId r = qid) rows")
  case None
  then show ?thesis
    by (simp add: upsertCompleted_cases pending_append pointsOf_def insertValues_def questPoints_def)
next
  case (Some r)
  then have "questId r = qid" by (auto dest: find_SomeD)
  then show ?thesis using Some pending_update [OF assms Some, of qs "onConflict now"]
    by (simp add: upsertCompleted_cases pointsOf_def onConflict_def questPoints_def)
qed

lemma pending_reset:
  assumes "distinct (map questId rows)" and "find (\<lambda>r. questId r = qid) rows = Some r"
    and "completed r" and "\<And>r. questId (f r) = questId r" and "\<not> completed (f r)"
  shows "pending qs (fst (update_returning qid f rows)) = pending qs rows - questPoints qs qid"
proof -
  have "questId r = qid" using assms(2) by (auto dest: find_SomeD)
  then show ?thesis using pending_update [OF assms(1,2), of qs f] assms(3,4,5)
    by (simp add: update_returning_def pointsOf_def questPoints_def)
qed

lemma pending_same:
  assumes "\<And>r. questId (f r) = questId r" and "\<And>r. completed (f r) = completed r"
  shows "pending qs (fst (update_returning qid f rows)) = pending qs rows"
proof -
  have "pointsOf qs (if questId r = qid then f r else r) = pointsOf qs r" for r
    using assms by (simp add: pointsOf_def)
  then show ?thesis
    by (simp add: pending_def update_returning_def comp_def)
qed


lemma quests_apply_op: "quests (apply_op x s) = quests s"
  by (cases x)
    (auto simp add: completeQuest_def cancelQuestCompletion_def undoQuestCompletion_def
      archiveQuest_def restoreQuestFromArchive_def deleteArchivedQuest_def transaction_def
      Let_def split: option.splits prod.splits sum.splits)

lemma quests_run: "quests (run ops s) = quests s"
  by (induction ops arbitrary: s) (simp_all add: quests_apply_op)

lemma attributesInRange_update:
  "attributesInRange m \<Longrightarrow> 0 \<le> v \<Longrightarrow> v \<le> 100 \<Longrightarrow> attributesInRange (m(k \<mapsto> v))"
  by (simp add: attributesInRange_def)

lemma attributesInRange_or0:
  "attributesInRange m \<Longrightarrow> 0 \<le> or0 (m k) \<and> or0 (m k) \<le> 100"
  by (cases "m k") (auto simp add: attributesInRange_def or0_def dest: spec [of _ k])

lemma awards_reward_pos: "awardTarget quest = Some t \<Longrightarrow> 0 < or0 (attributePointReward quest)"
  by (auto simp add: awardTarget_def awardsPoints_def or0_def split: option.splits if_splits)

lemma completeProfile_inRange:
  assumes "completeProfile quest p = Inr p1" and "attributesInRange (attributes p)"
  shows "attributesInRange (attributes p1)"
proof (cases "awardTarget quest")
  case None
  then show ?thesis using assms by (simp add: completeProfile_attributes)
next
  case (Some t)
  then show ?thesis
    using assms attributesInRange_or0 [OF assms(2), of t] awards_reward_pos [OF Some]
    by (simp add: completeProfile_attributes attributesInRange_update)
qed

lemma undoProfile_inRange:
  assumes "undoProfile quest p = Inr p1" and "attributesInRange (attributes p)"
  shows "attributesInRange (attributes p1)"
proof (cases "awardTarget quest")
  case None
  then show ?thesis using assms by (simp add: undoProfile_attributes)
next
  case (Some t)
  then show ?thesis
    using assms attributesInRange_or0 [OF assms(2), of t] awards_reward_pos [OF Some]
    by (simp add: undoProfile_attributes attributesInRange_update)
qed


lemma completeQuest_found:
  assumes "getQuest s qid = Some quest" and "profile s = Some p"
  shows "completeQuest now qid s =
           (if completed (snd (upsertCompleted now qid (questProgress s))) \<and>
               completedAt (snd (upsertCompleted now qid (questProgress s))) = Some now
            then (case completeProfile quest p of
                    Inl e \<Rightarrow> (s, Inl e)
                  | Inr p' \<Rightarrow>
                      (s\<lparr>questProgress := fst (upsertCompleted now qid (questProgress s)),
                         profile := Some p'\<rparr>,
                       Inr (snd (upsertCompleted now qid (questProgress s)))))
            else (s\<lparr>questProgress := fst (upsertCompleted now qid (questProgress s))\<rparr>,
                  Inr (snd (upsertCompleted now qid (questProgress s)))))"
proof -
  obtain rows' r' where u: "upsertCompleted now qid (questProgress s) = (rows', r')"
    by (cases "upsertCompleted now qid (questProgress s)")
  show ?thesis
    using assms u
    by (simp add: completeQuest_def transaction_def Let_def split: sum.splits)
qed

lemma questPoints_getQuest: "getQuest s qid = Some quest \<Longrightarrow> questPoints (quests s) qid = freePoints quest"
  by (simp add: questPoints_def getQuest_def)

lemma questPoints_nonneg: "0 \<le> questPoints qs qid"
  by (simp add: questPoints_def freePoints_nonneg split: option.splits)

lemma ledgerInv_complete:
  assumes inv: "ledgerInv s" and xr: "\<forall>q \<in> set (quests s). 0 \<le> or0 (xpReward q)"
  shows "ledgerInv (fst (completeQuest now qid s))"
proof (cases "getQuest s qid")
  case None
  then show ?thesis using inv by (simp add: completeQuest_def)
next
  case (Some quest)
  from inv obtain p where p: "profile s = Some p"
    by (auto simp add: ledgerInv_def split: option.splits)
  from inv p have d: "distinct (map questId (questProgress s))"
    and x0: "0 \<le> xp p" and c0: "0 \<le> cumulativeXp p" and a0: "attributesInRange (attributes p)"
    and ap: "xp p div 800 + pending (quests s) (questProgress s) \<le> availablePoints p"
    by (simp_all add: ledgerInv_def)
  have r0: "0 \<le> or0 (xpReward quest)"
    using Some xr by (auto simp add: getQuest_def dest: find_SomeD)
  let ?rows = "fst (upsertCompleted now qid (questProgress s))"
  let ?res = "snd (upsertCompleted now qid (questProgress s))"
  have d': "distinct (map questId ?rows)" using d by (rule distinct_upsert)
  have pend_le: "pending (quests s) ?rows \<le> pending (quests s) (questProgress s) + freePoints quest"
    using pending_upsert [OF d, of "quests s" now qid] freePoints_nonneg [of quest]
    by (simp add: questPoints_getQuest [OF Some])
  show ?thesis
  proof (cases "completed ?res \<and> completedAt ?res = Some now")
    case True
    show ?thesis
    proof (cases "completeProfile quest p")
      case (Inl e)
      then show ?thesis using inv True by (simp add: completeQuest_found [OF Some p])
    next
      case (Inr p1)
      have "0 \<le> xp p1" using x0 r0 by (simp add: completeProfile_xp [OF Inr])
      moreover have "0 \<le> cumulativeXp p1"
        using c0 r0 by (simp add: completeProfile_cumulativeXp [OF Inr])
      moreover have "attributesInRange (attributes p1)"
        using Inr a0 by (rule completeProfile_inRange)
      moreover have "xp p1 div 800 + pending (quests s) ?rows \<le> availablePoints p1"
        using ap pend_le
        by (simp add: completeProfile_xp [OF Inr] completeProfile_availablePoints [OF Inr])
      ultimately show ?thesis
        using True Inr d' by (simp add: completeQuest_found [OF Some p] ledgerInv_def)
    qed
  next
    case False
    have "\<not> (case find (\<lambda>r. questId r = qid) (questProgress s) of
                None \<Rightarrow> True | Some r0 \<Rightarrow> \<not> completed r0)"
      using False upsert_inactive [of qid "questProgress s" now] by blast
    then have "pending (quests s) ?rows = pending (quests s) (questProgress s)"
      using pending_upsert [OF d, of "quests s" now qid] by simp
    moreover have "fst (completeQuest now qid s) = s\<lparr>questProgress := ?rows\<rparr>"
      using False by (auto simp add: completeQuest_found [OF Some p])
    ultimately show ?thesis
      using d' x0 c0 a0 ap p by (simp add: ledgerInv_def)
  qed
qed

lemma cancel_arith:
  fixes a b pe fp av :: int
  assumes "b + pe \<le> av" and "a \<le> b"
  shows "a + (pe - fp) \<le> (let ld = b - a in if ld > 0 then max 0 (av - fp - ld) else av - fp)"
  using assms by (auto simp add: Let_def)

lemma ledgerInv_cancel:
  assumes inv: "ledgerInv s" and xr: "\<forall>q \<in> set (quests s). 0 \<le> or0 (xpReward q)"
  shows "ledgerInv (fst (cancelQuestCompletion qid s))"
proof (cases "\<exists>quest r. getQuest s qid = Some quest \<and> getQuestProgress s qid = Some r \<and> completed r")
  case False
  then have "fst (cancelQuestCompletion qid s) = s"
    by (auto simp add: cancelQuestCompletion_def split: option.splits)
  then show ?thesis using inv by simp
next
  case True
  then obtain quest r where q: "getQuest s qid = Some quest"
    and g: "getQuestProgress s qid = Some r" and c: "completed r"
    by blast
  from inv obtain p where p: "profile s = Some p"
    by (auto simp add: ledgerInv_def split: option.splits)
  from inv p have d: "distinct (map questId (questProgress s))"
    and x0: "0 \<le> xp p" and c0: "0 \<le> cumulativeXp p" and a0: "attributesInRange (attributes p)"
    and ap: "xp p div 800 + pending (quests s) (questProgress s) \<le> availablePoints p"
    by (simp_all add: ledgerInv_def)
  have r0: "0 \<le> or0 (xpReward quest)"
    using q xr by (auto simp add: getQuest_def dest: find_SomeD)
  let ?rows = "fst (update_returning qid resetCompletion (questProgress s))"
  have d': "distinct (map questId ?rows)"
    using d by (simp add: distinct_update_returning)
  have pend: "pending (quests s) ?rows = pending (quests s) (questProgress s) - freePoints quest"
    using pending_reset [OF d, of qid r resetCompletion "quests s"] g c
    by (simp add: getQuestProgress_def resetCompletion_def questPoints_getQuest [OF q])
  have mono: "max 0 (xp p - or0 (xpReward quest)) div 800 \<le> xp p div 800"
    using x0 r0 by (intro zdiv_mono1) simp_all
  show ?thesis
  proof (cases "cancelProfile quest p")
    case (Inl e)
    then show ?thesis using inv by (simp add: cancel_completed [OF q g c p])
  next
    case (Inr p1)
    have "0 \<le> xp p1" by (simp add: cancelProfile_xp [OF Inr])
    moreover have "0 \<le> cumulativeXp p1"
      using c0 by (simp add: cancelProfile_cumulativeXp [OF Inr])
    moreover have "attributesInRange (attributes p1)"
      using a0 by (simp add: cancelProfile_attributes [OF Inr])
    moreover have "xp p1 div 800 + pending (quests s) ?rows \<le> availablePoints p1"
      using cancel_arith [OF ap mono, of "freePoints quest"]
      by (simp add: cancelProfile_xp [OF Inr] cancelProfile_availablePoints [OF Inr] pend)
    ultimately show ?thesis
      using d' Inr by (simp add: cancel_completed [OF q g c p] ledgerInv_def)
  qed
qed

lemma ledgerInv_undo:
  assumes inv: "ledgerInv s"
  shows "ledgerInv (fst (undoQuestCompletion qid s))"
proof (cases "\<exists>quest r. getQuest s qid = Some quest \<and> getQuestProgress s qid = Some r \<and> completed r")
  case False
  then have "fst (undoQuestCompletion qid s) = s"
    by (auto simp add: undoQuestCompletion_def split: option.splits)
  then show ?thesis using inv by simp
next
  case True
  then obtain quest r where q: "getQuest s qid = Some quest"
    and g: "getQuestProgress s qid = Some r" and c: "completed r"
    by blast
  from inv obtain p where p: "profile s = Some p"
    by (auto simp add: ledgerInv_def split: option.splits)
  from inv p have d: "distinct (map questId (questProgress s))"
    and x0: "0 \<le> xp p" and c0: "0 \<le> cumulativeXp p" and a0: "attributesInRange (attributes p)"
    and ap: "xp p div 800 + pending (quests s) (questProgress s) \<le> availablePoints p"
    by (simp_all add: ledgerInv_def)
  let ?rows = "fst (update_returning qid resetAll (questProgress s))"
  have d': "distinct (map questId ?rows)"
    using d by (simp add: distinct_update_returning)
  have pend: "pending (quests s) ?rows = pending (quests s) (questProgress s) - freePoints quest"
    using pending_reset [OF d, of qid r resetAll "quests s"] g c
    by (simp add: getQuestProgress_def resetAll_def questPoints_getQuest [OF q])
  show ?thesis
  proof (cases "undoProfile quest p")
    case (Inl e)
    then show ?thesis using inv by (simp add: undo_completed [OF q g c p])
  next
    case (Inr p1)
    have "0 \<le> xp p1" using x0 undoProfile_xp_level [OF Inr] by simp
    moreover have "0 \<le> cumulativeXp p1" by (simp add: undoProfile_cumulativeXp [OF Inr])
    moreover have "attributesInRange (attributes p1)"
      using Inr a0 by (rule undoProfile_inRange)
    moreover have "xp p1 div 800 + pending (quests s) ?rows \<le> availablePoints p1"
      using ap undoProfile_availablePoints [OF Inr] undoProfile_xp_level [OF Inr]
      by (auto simp add: pend)
    ultimately show ?thesis
      using d' Inr by (simp add: undo_completed [OF q g c p] ledgerInv_def)
  qed
qed

lemma ledgerInv_archive: "ledgerInv s \<Longrightarrow> ledgerInv (fst (archiveQuest now qid reason s))"
  by (auto simp add: archiveQuest_def ledgerInv_def pending_same distinct_update_returning
      case_prod_unfold split: option.splits)

lemma ledgerInv_restore: "ledgerInv s \<Longrightarrow> ledgerInv (fst (restoreQuestFromArchive qid s))"
  by (auto simp add: restoreQuestFromArchive_def ledgerInv_def pending_same
      distinct_update_returning case_prod_unfold split: option.splits)

lemma ledgerInv_delete: "ledgerInv s \<Longrightarrow> ledgerInv (fst (deleteArchivedQuest qid s))"
  using pending_filter [of "quests s" "\<lambda>r. questId r \<noteq> qid" "questProgress s"]
  by (auto simp add: deleteArchivedQuest_def ledgerInv_def Let_def distinct_map_filter
      split: option.splits)

lemma ledgerInv_apply_op:
  assumes "ledgerInv s" and "\<forall>q \<in> set (quests s). 0 \<le> or0 (xpReward q)"
  shows "ledgerInv (apply_op x s)"
  using assms
  by (cases x)
    (simp_all add: ledgerInv_complete ledgerInv_cancel ledgerInv_undo ledgerInv_archive
      ledgerInv_restore ledgerInv_delete)

lemma ledgerInv_run:
  assumes "ledgerInv s" and "\<forall>q \<in> set (quests s). 0 \<le> or0 (xpReward q)"
  shows "ledgerInv (run ops s)"
  using assms
proof (induction ops arbitrary: s)
  case Nil
  then show ?case by simp
next
  case (Cons x ops)
  have "ledgerInv (apply_op x s)" using Cons.prems by (rule ledgerInv_apply_op)
  moreover have "\<forall>q \<in> set (quests (apply_op x s)). 0 \<le> or0 (xpReward q)"
    using Cons.prems(2) by (simp add: quests_apply_op)
  ultimately show ?case using Cons.IH by simp
qed

text \<open>
  Under two conditions the bounds hold. Take any catalogue whose quests have an XP reward
  that is not negative, start from the default profile and an empty progress table, and run
  any sequence of engine operations, with any quest ids and clock readings, failing calls
  included. In the database reached the profile row exists, each of the five attributes has a
  value in [0,100], and the available points, XP and cumulative XP are not negative.
\<close>

lemma ledger_bounds:
  assumes "\<forall>q \<in> set (quests s0). 0 \<le> or0 (xpReward q)"
    and "questProgress s0 = []" and "profile s0 = Some defaultProfile"
  shows "\<exists>p. profile (run ops s0) = Some p \<and>
           (\<forall>k \<in> set allowedAttributes. \<exists>v. attributes p k = Some v \<and> 0 \<le> v \<and> v \<le> 100) \<and>
           0 \<le> availablePoints p \<and> 0 \<le> xp p \<and> 0 \<le> cumulativeXp p"
proof -
  have "attributesInRange defaultAttributes"
    by (simp add: attributesInRange_def defaultAttributes_def allowedAttributes_def)
  then have "ledgerInv s0"
    using assms(2,3) by (simp add: ledgerInv_def defaultProfile_def pending_def)
  then have inv: "ledgerInv (run ops s0)"
    using assms(1) by (rule ledgerInv_run)
  then obtain p where p: "profile (run ops s0) = Some p"
    by (auto simp add: ledgerInv_def split: option.splits)
  from inv p have x0: "0 \<le> xp p" and c0: "0 \<le> cumulativeXp p"
    and a0: "attributesInRange (attributes p)"
    and ap: "xp p div 800 + pending (quests (run ops s0)) (questProgress (run ops s0))
               \<le> availablePoints p"
    by (simp_all add: ledgerInv_def)
  have "0 \<le> xp p div 800" using x0 by simp
  then have "0 \<le> availablePoints p"
    using ap pending_nonneg [of "quests (run ops s0)" "questProgress (run ops s0)"] by linarith
  moreover have "\<forall>k \<in> set allowedAttributes. \<exists>v. attributes p k = Some v \<and> 0 \<le> v \<and> v \<le> 100"
  proof
    fix k assume "k \<in> set allowedAttributes"
    then show "\<exists>v. attributes p k = Some v \<and> 0 \<le> v \<and> v \<le> 100"
      using a0 by (cases "attributes p k") (auto simp add: attributesInRange_def dest: spec [of _ k])
  qed
  ultimately show ?thesis using p x0 c0 by blast
qed


text \<open>
  Claim C2 at the failing input. The catalogue holds a quest whose XP reward is -900; the
  profile is the default one and the progress table is empty. \<^verbatim>\<open>completeQuest\<close> adds the
  reward to XP and to cumulative XP without a floor: both are -900 after the call, and the
  level is -1.
\<close>

theorem C2_negative_reward:
  "questProgress penaltyDb = [] \<and> profile penaltyDb = Some defaultProfile \<and>
   getQuest penaltyDb ''q3'' = Some penaltyQuest \<and>
   snd (completeQuest 5 ''q3'' penaltyDb) = Inr (insertValues 5 ''q3'') \<and>
   profile (run [Complete 5 ''q3''] penaltyDb)
     = Some \<lparr>level = - 1, xp = - 900, cumulativeXp = - 900, availablePoints = 1,
             attributes = defaultAttributes\<rparr>"
  by (simp add: penaltyDb_def penaltyQuest_def eval_defs)

text \<open>
  The second condition is needed as well. \<^verbatim>\<open>completeQuest\<close> credits nothing while the
  profile table is empty; once \<^verbatim>\<open>getProfile\<close> has created the default profile, the
  cancellation of a quest completed before debits points that were never credited, and the
  subtraction \<^verbatim>\<open>available_points - reward\<close> has no floor.
\<close>

lemma lateProfileDb_reached:
  "lateProfileDb = fst (getProfile (fst (completeQuest 5 ''q2'' (freshDb\<lparr>profile := None\<rparr>))))"
  by (simp add: lateProfileDb_def getProfile_def freshDb_def eval_defs)

lemma late_profile_cancel:
  "profile (run [Cancel ''q2''] lateProfileDb)
     = Some \<lparr>level = 1, xp = 0, cumulativeXp = 0, availablePoints = - 3,
             attributes = defaultAttributes\<rparr>"
  by (simp add: lateProfileDb_def eval_defs)

section \<open>Repeated completion\<close>

lemma completedDb_reached: "completedDb = fst (completeQuest 5 ''q1'' freshDb)"
  by (simp add: completedDb_def completedProfile_def freshDb_def eval_defs)

lemma completeQuest_repeat:
  assumes "getQuest s qid = Some quest" and "getQuestProgress s qid = Some r"
    and "completed r" and "completedAt r \<noteq> Some now"
  shows "snd (completeQuest now qid s) = Inr r \<and>
         profile (fst (completeQuest now qid s)) = profile s \<and>
         getQuestProgress (fst (completeQuest now qid s)) qid = Some r"
proof -
  have u: "upsertCompleted now qid (questProgress s) =
             (map (\<lambda>r. if questId r = qid then onConflict now r else r) (questProgress s), r)"
    using assms(2,3) by (simp add: upsertCompleted_cases getQuestProgress_def onConflict_def)
  have f: "find (\<lambda>r. questId r = qid)
             (map (\<lambda>r. if questId r = qid then onConflict now r else r) (questProgress s)) = Some r"
    using assms(2,3) by (simp add: find_update getQuestProgress_def onConflict_def)
  show ?thesis
    using assms(1,4) u f
    by (simp add: completeQuest_def transaction_def Let_def getQuestProgress_def)
qed

text \<open>
  Claim C1 at the failing input. Quest \<open>q1\<close> was completed at clock reading 5; a second
  \<^verbatim>\<open>completeQuest\<close> whose \<^verbatim>\<open>new Date()\<close> reads 5 again leaves the progress row as it is,
  but finds \<^verbatim>\<open>completedAt\<close> equal to its own timestamp, takes the row for just completed
  and credits the profile a second time: XP and cumulative XP go from 100 to 200 and
  \<open>mental\<close> from 15 to 20. With any other clock reading the second call is a no-op
  (lemma \<open>completeQuest_repeat\<close>).
\<close>

theorem C1_same_timestamp_double_credit:
  "getQuestProgress completedDb ''q1'' = Some (insertValues 5 ''q1'') \<and>
   completed (insertValues 5 ''q1'') \<and>
   profile completedDb = Some completedProfile \<and>
   snd (completeQuest 5 ''q1'' completedDb) = Inr (insertValues 5 ''q1'') \<and>
   questProgress (fst (completeQuest 5 ''q1'' completedDb)) = questProgress completedDb \<and>
   profile (fst (completeQuest 5 ''q1'' completedDb)) =
     Some \<lparr>level = 1, xp = 200, cumulativeXp = 200, availablePoints = 0,
           attributes = defaultAttributes(''mental'' \<mapsto> 20)\<rparr>"
  by (simp add: completedDb_def completedProfile_def eval_defs)

section \<open>Deleting a quest group\<close>

text \<open>
  Claim C6 at the failing input. Group \<open>g1\<close> holds quest \<open>q1\<close>, which has a progress row.
  \<^verbatim>\<open>deleteQuestGroup\<close> deletes no progress row, the foreign key rejects the deletion of
  the quests, and group, quest and progress row are all still there; the quest is still found.
\<close>

theorem C6_group_delete_rejected:
  "getQuest completedDb ''q1'' = Some mentalQuest \<and> groupId mentalQuest = Some ''g1'' \<and>
   getQuestProgress completedDb ''q1'' = Some (insertValues 5 ''q1'') \<and>
   deleteQuestGroup ''g1'' completedDb = (completedDb, Inl ForeignKeyViolation) \<and>
   getQuest (fst (deleteQuestGroup ''g1'' completedDb)) ''q1'' = Some mentalQuest \<and>
   getQuestProgress (fst (deleteQuestGroup ''g1'' completedDb)) ''q1''
     = Some (insertValues 5 ''q1'')"
  by (simp add: deleteQuestGroup_def completedDb_def getQuest_def getQuestProgress_def
      mentalQuest_def freeQuest_def insertValues_def)

text \<open>
  Where no quest of the group has a progress row the group and its quests are removed, and
  \<^verbatim>\<open>deleteQuest\<close>, unlike \<^verbatim>\<open>deleteQuestGroup\<close>, removes the progress rows of its quest.
\<close>

lemma deleteQuestGroup_without_progress:
  assumes "\<not> (\<exists>q \<in> set (quests s). groupId q = Some gid \<and>
              (\<exists>r \<in> set (questProgress s). questId r = quest_id q))"
    and "distinct (map quest_id (quests s))"
  shows "(\<exists>b. snd (deleteQuestGroup gid s) = Inr b) \<and>
         (\<forall>g \<in> set (questGroups (fst (deleteQuestGroup gid s))). group_id g \<noteq> gid) \<and>
         (\<forall>q \<in> set (quests s). groupId q = Some gid \<longrightarrow>
            getQuest (fst (deleteQuestGroup gid s)) (quest_id q) = None)"
proof -
  have "find (\<lambda>q'. quest_id q' = quest_id q)
          (filter (\<lambda>q. groupId q \<noteq> Some gid) (quests s)) = None"
    if "q \<in> set (quests s)" and "groupId q = Some gid" for q
    using that assms(2) by (auto simp add: find_None_iff distinct_map inj_on_def)
  then show ?thesis
    using assms(1) by (auto simp add: deleteQuestGroup_def Let_def getQuest_def)
qed

text \<open>The three deleting calls return false whatever they delete.\<close>

lemma delete_returns:
  "snd (deleteQuest qid s) = Inr False"
  "snd (deleteQuestGroup gid s) = Inr b \<Longrightarrow> b = False"
  by (auto simp add: deleteQuest_def deleteQuestGroup_def Let_def rowCount_def deleted_def
      split: if_splits)

lemma deleteQuest_removes:
  "getQuest (fst (deleteQuest qid s)) qid = None \<and>
   getQuestProgress (fst (deleteQuest qid s)) qid = None"
  by (simp add: deleteQuest_def Let_def getQuest_def getQuestProgress_def find_None_iff)


end
